theory Spec2Isabelle
  imports Main
begin

section \<open>Data model of MonitoringService.ts\<close>

text \<open>
  The status of \<^verbatim>\<open>ServerHealthStatus\<close> is the string union
  \<^verbatim>\<open>'online' | 'offline' | 'error' | 'unknown'\<close>, the status of a history entry is
  \<^verbatim>\<open>'success' | 'failure'\<close>.
\<close>

datatype server_status = Online | Offline | Error | Unknown

datatype history_status = Success | Failure

text \<open>
  Instants are milliseconds since the epoch. The source stores them as the ISO string of
  \<^verbatim>\<open>new Date().toISOString()\<close> and reads them back with
  \<^verbatim>\<open>new Date(s).getTime()\<close>, which returns the same millisecond count.
\<close>

type_synonym instant = int

text \<open>The interface \<^verbatim>\<open>Server\<close> of SSHService.ts; \<^verbatim>\<open>id\<close> is written \<open>server_id\<close>.\<close>

datatype auth_method = Password | Key

record Server =
  server_id :: string
  name :: string
  host :: string
  port :: nat
  username :: string
  authMethod :: auth_method

record HealthCheckConfig =
  cfg_serverId :: string
  interval :: nat
  enabled :: bool
  notifyOnFailure :: bool
  notifyOnRecovery :: bool

record ServerHealthStatus =
  serverId :: string
  status :: server_status
  lastChecked :: instant
  lastOnline :: "instant option"
  consecutiveFailures :: nat
  uptimePercentage :: nat
  responseTime :: "int option"
  errorMessage :: "string option"

text \<open>
  \<^verbatim>\<open>HealthCheckHistory\<close>; its fields \<^verbatim>\<open>status\<close>, \<^verbatim>\<open>responseTime\<close> and
  \<^verbatim>\<open>error\<close> carry the prefix \<open>entry_\<close>.
\<close>

record HealthCheckHistory =
  timestamp :: instant
  entry_status :: history_status
  entry_responseTime :: "int option"
  entry_error :: "string option"

section \<open>JavaScript primitives used by the service\<close>

subsection \<open>Array.prototype.slice with a negative start\<close>

text \<open>
  \<^verbatim>\<open>xs.slice(-n)\<close> for a non-negative integer \<open>n\<close>: the last \<open>n\<close> elements, the whole
  array when it is shorter, and the whole array for \<open>n = 0\<close> (\<^verbatim>\<open>-0\<close> is the start \<open>0\<close>).
\<close>

definition slice_last :: "nat \<Rightarrow> 'a list \<Rightarrow> 'a list" where
  "slice_last n xs = (if n = 0 then xs else drop (length xs - n) xs)"

subsection \<open>Double-precision arithmetic\<close>

text \<open>
  JavaScript numbers are IEEE-754 doubles. A positive double below \<open>2 ^ 53\<close> is
  \<open>m / 2 ^ k\<close> with a significand \<open>m < 2 ^ 53\<close>; it is kept as the pair \<open>(m, k)\<close>.
  \<open>to_double p q\<close> is the double nearest to the exact quotient \<open>p / q\<close> (round to
  nearest, ties to even), for \<open>0 \<le> p / q < 2 ^ 53\<close> in the normal range, which covers every
  value the uptime calculation meets (ratios in \<open>[0, 1]\<close>, percentages in \<open>[0, 100]\<close>).
\<close>

type_synonym double = "nat \<times> nat"

definition round_half_even :: "nat \<Rightarrow> nat \<Rightarrow> nat" where
  "round_half_even p q =
     (let d = p div q; r = p mod q
      in if 2 * r < q then d
         else if q < 2 * r then d + 1
         else if even d then d else d + 1)"

function binary_exponent :: "nat \<Rightarrow> nat \<Rightarrow> nat \<Rightarrow> nat" where
  "binary_exponent p q k =
     (if p = 0 \<or> 2 ^ 52 * q \<le> p * 2 ^ k then k else binary_exponent p q (Suc k))"
  by pat_completeness auto
termination
proof (relation "measure (\<lambda>(p, q, k). 2 ^ 52 * q - p * 2 ^ k)")
  show "wf (measure (\<lambda>(p, q, k). 2 ^ 52 * q - p * 2 ^ k))"
    by simp
next
  fix p q k :: nat
  assume "\<not> (p = 0 \<or> 2 ^ 52 * q \<le> p * 2 ^ k)"
  then have pos: "0 < p * 2 ^ k" and below: "p * 2 ^ k < 2 ^ 52 * q"
    by simp_all
  from pos have "p * 2 ^ k < p * 2 ^ Suc k"
    by simp
  with below have "2 ^ 52 * q - p * 2 ^ Suc k < 2 ^ 52 * q - p * 2 ^ k"
    by (rule_tac diff_less_mono2)
  then show "((p, q, Suc k), (p, q, k)) \<in> measure (\<lambda>(p, q, k). 2 ^ 52 * q - p * 2 ^ k)"
    by simp
qed

definition to_double :: "nat \<Rightarrow> nat \<Rightarrow> double" where
  "to_double p q =
     (if p = 0 then (0, 0)
      else let k = binary_exponent p q 0 in (round_half_even (p * 2 ^ k) q, k))"

text \<open>\<^verbatim>\<open>a / b\<close> on two non-negative integers below \<open>2 ^ 53\<close>, \<open>b > 0\<close>.\<close>

definition js_div :: "nat \<Rightarrow> nat \<Rightarrow> double" where
  "js_div a b = to_double a b"

text \<open>\<^verbatim>\<open>x * c\<close> for a double \<open>x\<close> and a non-negative integer \<open>c\<close>.\<close>

definition js_mul :: "double \<Rightarrow> nat \<Rightarrow> double" where
  "js_mul x c = (case x of (m, k) \<Rightarrow> to_double (m * c) (2 ^ k))"

text \<open>
  \<^verbatim>\<open>Math.round(x)\<close>: the integer nearest to \<open>x\<close>, a tie going up; it is exact, that is
  \<open>\<lfloor>x + 1/2\<rfloor>\<close> computed without rounding error.
\<close>

definition Math_round :: "double \<Rightarrow> nat" where
  "Math_round x = (case x of (m, k) \<Rightarrow> (2 * m + 2 ^ k) div 2 ^ Suc k)"

section \<open>The uptime calculation\<close>

definition DAY_MS :: int where
  "DAY_MS = 24 * 60 * 60 * 1000"

text \<open>
  The body of \<^verbatim>\<open>calculateUptime\<close> after the history has been fetched, for the
  clock reading \<open>now\<close> of \<^verbatim>\<open>Date.now()\<close>.
\<close>

definition uptime_of :: "HealthCheckHistory list \<Rightarrow> instant \<Rightarrow> nat" where
  "uptime_of history now =
     (let oneDayAgo = now - DAY_MS;
          recentHistory = filter (\<lambda>entry. timestamp entry > oneDayAgo) history
      in if length recentHistory = 0 then 100
         else let successCount =
                    length (filter (\<lambda>entry. entry_status entry = Success) recentHistory)
              in Math_round (js_mul (js_div successCount (length recentHistory)) 100))"

section \<open>The collaborators: storage, notification sink, clock, remote session provider\<close>

subsection \<open>AsyncStorage\<close>

text \<open>
  What \<^verbatim>\<open>AsyncStorage.getItem(key)\<close> followed by \<^verbatim>\<open>JSON.parse\<close> can find under a
  key: nothing (\<^verbatim>\<open>null\<close>), a text that \<^verbatim>\<open>JSON.parse\<close> rejects, or the JSON text of a
  value of the declared type.
\<close>

datatype 'a item = NoItem | BadJson | Json 'a

definition STORAGE_KEY_PREFIX :: string where
  "STORAGE_KEY_PREFIX = ''@monitoring_''"

definition status_key :: "string \<Rightarrow> string" where
  "status_key sid = STORAGE_KEY_PREFIX @ ''status_'' @ sid"

definition history_key :: "string \<Rightarrow> string" where
  "history_key sid = STORAGE_KEY_PREFIX @ ''history_'' @ sid"

definition configs_key :: string where
  "configs_key = STORAGE_KEY_PREFIX @ ''configs''"

subsection \<open>Notifications, exceptions, observable events\<close>

record notification_data =
  data_serverId :: string
  data_type :: string

record notification =
  title :: string
  body :: string
  data :: notification_data

text \<open>
  A thrown value: an \<^verbatim>\<open>Error\<close> with its message, or something that is not an
  \<^verbatim>\<open>Error\<close> (the two cases of \<^verbatim>\<open>error instanceof Error\<close>).
\<close>

datatype thrown = ErrorObject string | NonError

text \<open>
  The calls the service makes to its collaborators, in the order it makes them: the
  connectivity test for a server, \<^verbatim>\<open>AsyncStorage.getItem\<close> and
  \<^verbatim>\<open>AsyncStorage.setItem\<close> with their key, and
  \<^verbatim>\<open>Notifications.scheduleNotificationAsync\<close>.
\<close>

datatype event =
    ProbeAttempt string
  | GetItem string
  | SetItem string
  | ScheduleNotification notification

subsection \<open>The state\<close>

text \<open>
  \<open>healthCheckConfigs\<close> is the service's \<^verbatim>\<open>Map\<close>, in insertion order. The three
  kinds of stored item live under keys that never coincide (see \<open>status_key\<close>,
  \<open>history_key\<close>, \<open>configs_key\<close>), so each kind has its own table, indexed by server id.
  \<open>getItem_rejects\<close> and \<open>setItem_rejects\<close> say for which keys the storage call
  rejects; \<open>schedule_rejects\<close> gives the value the notification sink rejects with, if it
  does. \<open>trace\<close> records the calls made so far, oldest first.
\<close>

record world =
  healthCheckConfigs :: "(string \<times> HealthCheckConfig) list"
  status_items :: "string \<Rightarrow> ServerHealthStatus item"
  history_items :: "string \<Rightarrow> HealthCheckHistory list item"
  configs_item :: "HealthCheckConfig list item"
  getItem_rejects :: "string \<Rightarrow> bool"
  setItem_rejects :: "string \<Rightarrow> bool"
  schedule_rejects :: "notification \<Rightarrow> thrown option"
  trace :: "event list"

definition log_event :: "event \<Rightarrow> world \<Rightarrow> world" where
  "log_event e w = w\<lparr>trace := trace w @ [e]\<rparr>"

text \<open>\<^verbatim>\<open>Map.prototype.set\<close>: an existing key keeps its place, a new key goes last.\<close>

fun Map_set :: "string \<Rightarrow> 'v \<Rightarrow> (string \<times> 'v) list \<Rightarrow> (string \<times> 'v) list" where
  "Map_set k v [] = [(k, v)]"
| "Map_set k v ((k', v') # rest) =
     (if k' = k then (k, v) # rest else (k', v') # Map_set k v rest)"

subsection \<open>The connectivity test and the clock\<close>

text \<open>
  \<^verbatim>\<open>SSHService.testConnection\<close> resolves to an object
  \<^verbatim>\<open>{ success: boolean; error?: string }\<close>: it catches every failure of the connection
  attempt, its timeout included, and returns \<^verbatim>\<open>{ success: false, error }\<close>.
\<close>

record test_result =
  success :: bool
  test_error :: "string option"

text \<open>
  \<^verbatim>\<open>if (connected)\<close> applies ToBoolean to the resolved value, and every object is
  truthy, whatever its fields hold.
\<close>

definition truthy :: "test_result \<Rightarrow> bool" where
  "truthy connected = True"

text \<open>
  What one run of \<^verbatim>\<open>checkServerHealth\<close> receives from outside: the outcome of the
  \<^verbatim>\<open>try\<close> block's awaited calls (the dynamic import and \<^verbatim>\<open>testConnection\<close>), which
  either throw or resolve to a test result, and the six clock readings, in program order.
\<close>

record check_env =
  probe :: "thrown + test_result"
  t_start :: instant
  t_connected :: instant
  t_entry :: instant
  t_uptime :: instant
  t_checked :: instant
  t_online :: instant

section \<open>The service\<close>

definition getServerStatus :: "world \<Rightarrow> string \<Rightarrow> world \<times> ServerHealthStatus option" where
  "getServerStatus w sid =
     (let key = status_key sid; w' = log_event (GetItem key) w
      in if getItem_rejects w key then (w', None)
         else case status_items w sid of
                NoItem \<Rightarrow> (w', None)
              | BadJson \<Rightarrow> (w', None)
              | Json s \<Rightarrow> (w', Some s))"

text \<open>
  The two lines shared by \<^verbatim>\<open>getHealthHistory\<close> and \<^verbatim>\<open>addHistoryEntry\<close>:
  \<^verbatim>\<open>const data = await AsyncStorage.getItem(key)\<close> and
  \<^verbatim>\<open>const history = data ? JSON.parse(data) : []\<close>. \<open>None\<close> when one of them throws.
\<close>

definition load_history :: "world \<Rightarrow> string \<Rightarrow> HealthCheckHistory list option" where
  "load_history w sid =
     (if getItem_rejects w (history_key sid) then None
      else case history_items w sid of
             NoItem \<Rightarrow> Some []
           | BadJson \<Rightarrow> None
           | Json history \<Rightarrow> Some history)"

definition getHealthHistory :: "world \<Rightarrow> string \<Rightarrow> nat \<Rightarrow> world \<times> HealthCheckHistory list" where
  "getHealthHistory w sid limit =
     (let w' = log_event (GetItem (history_key sid)) w
      in case load_history w sid of
           None \<Rightarrow> (w', [])
         | Some history \<Rightarrow> (w', slice_last limit history))"

definition getConfigs :: "world \<Rightarrow> HealthCheckConfig list" where
  "getConfigs w = map snd (healthCheckConfigs w)"

definition saveConfigs :: "world \<Rightarrow> world" where
  "saveConfigs w =
     (let w' = log_event (SetItem configs_key) w
      in if setItem_rejects w configs_key then w'
         else w'\<lparr>configs_item := Json (getConfigs w)\<rparr>)"

definition toggleMonitoring :: "world \<Rightarrow> string \<Rightarrow> bool \<Rightarrow> world" where
  "toggleMonitoring w sid en =
     (case map_of (healthCheckConfigs w) sid of
        None \<Rightarrow> w
      | Some config \<Rightarrow>
          saveConfigs (w\<lparr>healthCheckConfigs :=
                           Map_set sid (config\<lparr>enabled := en\<rparr>) (healthCheckConfigs w)\<rparr>))"

text \<open>
  \<^verbatim>\<open>scheduleHealthCheck\<close>, \<^verbatim>\<open>unscheduleHealthCheck\<close> and \<^verbatim>\<open>loadConfigs\<close>.
  \<^verbatim>\<open>registerBackgroundTask\<close> only talks to the task manager, inside its own
  \<^verbatim>\<open>try\<close>/\<^verbatim>\<open>catch\<close>, and leaves this state as it is.
\<close>

definition scheduleHealthCheck :: "world \<Rightarrow> HealthCheckConfig \<Rightarrow> world" where
  "scheduleHealthCheck w config =
     saveConfigs (w\<lparr>healthCheckConfigs :=
                      Map_set (cfg_serverId config) config (healthCheckConfigs w)\<rparr>)"

definition unscheduleHealthCheck :: "world \<Rightarrow> string \<Rightarrow> world" where
  "unscheduleHealthCheck w sid =
     saveConfigs (w\<lparr>healthCheckConfigs := filter (\<lambda>kv. fst kv \<noteq> sid) (healthCheckConfigs w)\<rparr>)"

definition loadConfigs :: "world \<Rightarrow> world" where
  "loadConfigs w =
     (let w' = log_event (GetItem configs_key) w
      in if getItem_rejects w configs_key then w'
         else case configs_item w of
                NoItem \<Rightarrow> w'
              | BadJson \<Rightarrow> w'
              | Json configs \<Rightarrow>
                  w'\<lparr>healthCheckConfigs :=
                       foldl (\<lambda>m config. Map_set (cfg_serverId config) config m)
                         (healthCheckConfigs w) configs\<rparr>)"

definition saveServerStatus :: "world \<Rightarrow> string \<Rightarrow> ServerHealthStatus \<Rightarrow> world" where
  "saveServerStatus w sid s =
     (let key = status_key sid; w' = log_event (SetItem key) w
      in if setItem_rejects w key then w'
         else w'\<lparr>status_items := (status_items w)(sid := Json s)\<rparr>)"

definition addHistoryEntry :: "world \<Rightarrow> string \<Rightarrow> HealthCheckHistory \<Rightarrow> world" where
  "addHistoryEntry w sid entry =
     (let key = history_key sid; w' = log_event (GetItem key) w
      in case load_history w sid of
           None \<Rightarrow> w'
         | Some history \<Rightarrow>
             (let trimmed = slice_last 1000 (history @ [entry]);
                  w'' = log_event (SetItem key) w'
              in if setItem_rejects w key then w''
                 else w''\<lparr>history_items := (history_items w)(sid := Json trimmed)\<rparr>))"

text \<open>
  \<^verbatim>\<open>calculateUptime\<close>. Its \<^verbatim>\<open>catch\<close> clause (\<^verbatim>\<open>return 0\<close>) has no branch here:
  \<^verbatim>\<open>getHealthHistory\<close> catches its own failures and returns \<^verbatim>\<open>[]\<close>, and no other
  statement of the \<^verbatim>\<open>try\<close> block throws on entries of the declared type.
\<close>

definition calculateUptime :: "world \<Rightarrow> string \<Rightarrow> instant \<Rightarrow> world \<times> nat" where
  "calculateUptime w sid now =
     (case getHealthHistory w sid 100 of (w', history) \<Rightarrow> (w', uptime_of history now))"

subsection \<open>Notifications\<close>

definition sendNotification ::
  "world \<Rightarrow> string \<Rightarrow> string \<Rightarrow> notification_data \<Rightarrow> world \<times> (thrown + unit)" where
  "sendNotification w ttl bdy dat =
     (let n = \<lparr>title = ttl, body = bdy, data = dat\<rparr>;
          w' = log_event (ScheduleNotification n) w
      in case schedule_rejects w n of
           Some e \<Rightarrow> (w', Inl e)
         | None \<Rightarrow> (w', Inr ()))"

text \<open>The text a template literal gives for a status and for a number or \<^verbatim>\<open>null\<close>.\<close>

fun status_text :: "server_status \<Rightarrow> string" where
  "status_text Online = ''online''"
| "status_text Offline = ''offline''"
| "status_text Error = ''error''"
| "status_text Unknown = ''unknown''"

fun digits :: "nat \<Rightarrow> string" where
  "digits n =
     (if n < 10 then [''0123456789'' ! n]
      else digits (n div 10) @ [''0123456789'' ! (n mod 10)])"

definition number_text :: "int option \<Rightarrow> string" where
  "number_text x =
     (case x of
        None \<Rightarrow> ''null''
      | Some i \<Rightarrow> if i < 0 then CHR ''-'' # digits (nat (- i)) else digits (nat i))"

text \<open>\<^verbatim>\<open>a || b\<close> on a nullable string: \<^verbatim>\<open>null\<close> and the empty string are falsy.\<close>

definition or_else :: "string option \<Rightarrow> string \<Rightarrow> string" where
  "or_else a b = (case a of None \<Rightarrow> b | Some x \<Rightarrow> if x = [] then b else x)"

definition handleNotifications ::
  "world \<Rightarrow> Server \<Rightarrow> ServerHealthStatus \<Rightarrow> ServerHealthStatus option \<Rightarrow> HealthCheckConfig
     \<Rightarrow> world \<times> (thrown + unit)" where
  "handleNotifications w server currentStatus previousStatus config =
     (let statusChanged =
            (case previousStatus of
               None \<Rightarrow> False
             | Some p \<Rightarrow> status p \<noteq> status currentStatus)
      in if \<not> statusChanged then (w, Inr ())
         else
           case (if status currentStatus \<noteq> Online \<and> notifyOnFailure config
                 then sendNotification w
                        (''Server '' @ name server @ '' is '' @ status_text (status currentStatus))
                        (or_else (errorMessage currentStatus) ''Connection check failed'')
                        \<lparr>data_serverId = server_id server, data_type = ''failure''\<rparr>
                 else (w, Inr ())) of
             (w1, Inl e) \<Rightarrow> (w1, Inl e)
           | (w1, Inr u) \<Rightarrow>
               if status currentStatus = Online \<and> notifyOnRecovery config
               then sendNotification w1
                      (''Server '' @ name server @ '' is back online'')
                      (''Response time: '' @ number_text (responseTime currentStatus) @ ''ms'')
                      \<lparr>data_serverId = server_id server, data_type = ''recovery''\<rparr>
               else (w1, Inr ()))"

subsection \<open>One health check\<close>

text \<open>
  The \<^verbatim>\<open>try\<close>/\<^verbatim>\<open>catch\<close> around the connectivity test: status, response time and
  error message.
\<close>

definition classify :: "check_env \<Rightarrow> server_status \<times> int option \<times> string option" where
  "classify env =
     (case probe env of
        Inr connected \<Rightarrow>
          if truthy connected then (Online, Some (t_connected env - t_start env), None)
          else (Offline, None, Some ''Connection failed'')
      | Inl err \<Rightarrow>
          (Error, None,
           Some (case err of ErrorObject message \<Rightarrow> message | NonError \<Rightarrow> ''Unknown error'')))"

definition checkServerHealth ::
  "world \<Rightarrow> check_env \<Rightarrow> string \<Rightarrow> Server \<Rightarrow> world \<times> (thrown + ServerHealthStatus)" where
  "checkServerHealth w env sid server =
     (case classify env of (st, rt, msg) \<Rightarrow>
       (case getServerStatus (log_event (ProbeAttempt (server_id server)) w) sid of
          (w1, previousStatus) \<Rightarrow>
            (let failures =
                   (if st = Online then 0
                    else (case previousStatus of None \<Rightarrow> 0 | Some p \<Rightarrow> consecutiveFailures p) + 1);
                 w2 = addHistoryEntry w1 sid
                        \<lparr>timestamp = t_entry env,
                         entry_status = (if st = Online then Success else Failure),
                         entry_responseTime = rt,
                         entry_error = msg\<rparr>
             in (case calculateUptime w2 sid (t_uptime env) of (w3, uptime) \<Rightarrow>
                  (let healthStatus =
                         \<lparr>serverId = sid,
                          status = st,
                          lastChecked = t_checked env,
                          lastOnline =
                            (if st = Online then Some (t_online env)
                             else (case previousStatus of None \<Rightarrow> None | Some p \<Rightarrow> lastOnline p)),
                          consecutiveFailures = failures,
                          uptimePercentage = uptime,
                          responseTime = rt,
                          errorMessage = msg\<rparr>;
                       w4 = saveServerStatus w3 sid healthStatus
                   in (case map_of (healthCheckConfigs w4) sid of
                         None \<Rightarrow> (w4, Inr healthStatus)
                       | Some config \<Rightarrow>
                           (case handleNotifications w4 server healthStatus previousStatus config of
                              (w5, Inl e) \<Rightarrow> (w5, Inl e)
                            | (w5, Inr u) \<Rightarrow> (w5, Inr healthStatus))))))))"

subsection \<open>The background task\<close>

datatype BackgroundFetchResult = NewData | Failed

text \<open>
  The \<^verbatim>\<open>for\<close> loop of the task over the configurations; \<open>env\<close> gives each server's
  check its outside inputs. An exception leaving \<^verbatim>\<open>checkServerHealth\<close> leaves the
  loop.
\<close>

fun check_configs ::
  "world \<Rightarrow> (string \<Rightarrow> check_env) \<Rightarrow> Server list \<Rightarrow> HealthCheckConfig list
     \<Rightarrow> world \<times> (thrown + unit)" where
  "check_configs w env servers [] = (w, Inr ())"
| "check_configs w env servers (config # rest) =
     (if enabled config then
        (case find (\<lambda>s. server_id s = cfg_serverId config) servers of
           None \<Rightarrow> check_configs w env servers rest
         | Some server \<Rightarrow>
             (case checkServerHealth w (env (cfg_serverId config)) (cfg_serverId config) server of
                (w', Inl e) \<Rightarrow> (w', Inl e)
              | (w', Inr s) \<Rightarrow> check_configs w' env servers rest))
      else check_configs w env servers rest)"

text \<open>
  The handler registered for \<^verbatim>\<open>MONITORING_TASK\<close>. \<open>getServers\<close> is the outcome of
  importing StorageService and calling \<^verbatim>\<open>getServers()\<close>: a thrown value or the servers.
\<close>

definition monitoring_task ::
  "world \<Rightarrow> (string \<Rightarrow> check_env) \<Rightarrow> thrown + Server list \<Rightarrow> world \<times> BackgroundFetchResult" where
  "monitoring_task w env getServers =
     (case getServers of
        Inl e \<Rightarrow> (w, Failed)
      | Inr servers \<Rightarrow>
          (case check_configs w env servers (getConfigs w) of
             (w', Inl e) \<Rightarrow> (w', Failed)
           | (w', Inr u) \<Rightarrow> (w', NewData)))"

text \<open>Successive checks of one server, each with its own outside inputs.\<close>

fun repeat_checks :: "world \<Rightarrow> check_env list \<Rightarrow> string \<Rightarrow> Server \<Rightarrow> world" where
  "repeat_checks w [] sid server = w"
| "repeat_checks w (env # envs) sid server =
     repeat_checks (fst (checkServerHealth w env sid server)) envs sid server"

text \<open>The failure count that the next check will read as the previous one.\<close>

definition previous_failures :: "world \<Rightarrow> string \<Rightarrow> nat" where
  "previous_failures w sid =
     (case snd (getServerStatus w sid) of None \<Rightarrow> 0 | Some p \<Rightarrow> consecutiveFailures p)"

section \<open>Vocabulary for the proofs\<close>

text \<open>
  Names for the intermediate values of \<^verbatim>\<open>handleNotifications\<close> and
  \<^verbatim>\<open>checkServerHealth\<close>: the two notifications, the notifications a call decides to
  send, the history entry and the status a check builds, the previous status it reads, and
  the state once the status has been saved. Lemmas \<open>handleNotifications_eq\<close> and
  \<open>checkServerHealth_eq\<close> show that the functions above compute exactly these.
\<close>

definition failure_notification :: "Server \<Rightarrow> ServerHealthStatus \<Rightarrow> notification" where
  "failure_notification server currentStatus =
     \<lparr>title = ''Server '' @ name server @ '' is '' @ status_text (status currentStatus),
      body = or_else (errorMessage currentStatus) ''Connection check failed'',
      data = \<lparr>data_serverId = server_id server, data_type = ''failure''\<rparr>\<rparr>"

definition recovery_notification :: "Server \<Rightarrow> ServerHealthStatus \<Rightarrow> notification" where
  "recovery_notification server currentStatus =
     \<lparr>title = ''Server '' @ name server @ '' is back online'',
      body = ''Response time: '' @ number_text (responseTime currentStatus) @ ''ms'',
      data = \<lparr>data_serverId = server_id server, data_type = ''recovery''\<rparr>\<rparr>"

definition decided :: "Server \<Rightarrow> ServerHealthStatus \<Rightarrow> ServerHealthStatus option \<Rightarrow> HealthCheckConfig \<Rightarrow> notification list" where
  "decided server currentStatus previousStatus config =
     (case previousStatus of
        None \<Rightarrow> []
      | Some p \<Rightarrow>
          if status p = status currentStatus then []
          else if status currentStatus \<noteq> Online
               then (if notifyOnFailure config then [failure_notification server currentStatus] else [])
               else (if notifyOnRecovery config then [recovery_notification server currentStatus] else []))"

definition new_entry :: "check_env \<Rightarrow> HealthCheckHistory" where
  "new_entry env =
     \<lparr>timestamp = t_entry env,
      entry_status = (if fst (classify env) = Online then Success else Failure),
      entry_responseTime = fst (snd (classify env)),
      entry_error = snd (snd (classify env))\<rparr>"

definition read_previous :: "world \<Rightarrow> string \<Rightarrow> ServerHealthStatus option" where
  "read_previous w sid =
     (if getItem_rejects w (status_key sid) then None
      else case status_items w sid of Json s \<Rightarrow> Some s | _ \<Rightarrow> None)"

definition new_status :: "world \<Rightarrow> check_env \<Rightarrow> string \<Rightarrow> ServerHealthStatus" where
  "new_status w env sid =
     \<lparr>serverId = sid,
      status = fst (classify env),
      lastChecked = t_checked env,
      lastOnline =
        (if fst (classify env) = Online then Some (t_online env)
         else (case read_previous w sid of None \<Rightarrow> None | Some p \<Rightarrow> lastOnline p)),
      consecutiveFailures =
        (if fst (classify env) = Online then 0
         else (case read_previous w sid of None \<Rightarrow> 0 | Some p \<Rightarrow> consecutiveFailures p) + 1),
      uptimePercentage =
        uptime_of (case load_history (addHistoryEntry w sid (new_entry env)) sid of
                     None \<Rightarrow> [] | Some h \<Rightarrow> slice_last 100 h) (t_uptime env),
      responseTime = fst (snd (classify env)),
      errorMessage = snd (snd (classify env))\<rparr>"

definition saved_world :: "world \<Rightarrow> check_env \<Rightarrow> string \<Rightarrow> Server \<Rightarrow> world" where
  "saved_world w env sid server =
     saveServerStatus
       (log_event (GetItem (history_key sid))
          (addHistoryEntry
             (log_event (GetItem (status_key sid)) (log_event (ProbeAttempt (server_id server)) w))
             sid (new_entry env)))
       sid (new_status w env sid)"

text \<open>
  What every registry built by \<^verbatim>\<open>scheduleHealthCheck\<close>, \<^verbatim>\<open>loadConfigs\<close>,
  \<^verbatim>\<open>toggleMonitoring\<close> and \<^verbatim>\<open>unscheduleHealthCheck\<close> satisfies: a \<^verbatim>\<open>Map\<close> has
  each key once, and a configuration is stored under its own \<^verbatim>\<open>serverId\<close>.
\<close>

definition registry_ok :: "(string \<times> HealthCheckConfig) list \<Rightarrow> bool" where
  "registry_ok m = (distinct (map fst m) \<and> list_all (\<lambda>kv. cfg_serverId (snd kv) = fst kv) m)"


section \<open>Concrete servers, configurations and states\<close>

definition srv1 :: Server where
  "srv1 = \<lparr>server_id = ''srv1'', name = ''alpha'', host = ''10.0.0.1'', port = 22,
           username = ''admin'', authMethod = Password\<rparr>"

definition srv2 :: Server where
  "srv2 = \<lparr>server_id = ''srv2'', name = ''beta'', host = ''10.0.0.2'', port = 22,
           username = ''admin'', authMethod = Key\<rparr>"

definition cfg1 :: HealthCheckConfig where
  "cfg1 = \<lparr>cfg_serverId = ''srv1'', interval = 15, enabled = True,
           notifyOnFailure = True, notifyOnRecovery = True\<rparr>"

definition cfg2 :: HealthCheckConfig where
  "cfg2 = \<lparr>cfg_serverId = ''srv2'', interval = 15, enabled = True,
           notifyOnFailure = True, notifyOnRecovery = True\<rparr>"

text \<open>Nothing stored, nothing registered, every collaborator working.\<close>

definition empty_world :: world where
  "empty_world =
     \<lparr>healthCheckConfigs = [],
      status_items = (\<lambda>k. NoItem),
      history_items = (\<lambda>k. NoItem),
      configs_item = NoItem,
      getItem_rejects = (\<lambda>k. False),
      setItem_rejects = (\<lambda>k. False),
      schedule_rejects = (\<lambda>n. None),
      trace = []\<rparr>"

text \<open>Three outcomes of the connectivity test, and a check that starts at instant \<open>t\<close>.\<close>

definition connect_ok :: "thrown + test_result" where
  "connect_ok = Inr \<lparr>success = True, test_error = None\<rparr>"


definition connect_throws :: "thrown + test_result" where
  "connect_throws = Inl (ErrorObject ''Network request failed'')"

definition env_at :: "thrown + test_result \<Rightarrow> instant \<Rightarrow> check_env" where
  "env_at p t =
     \<lparr>probe = p, t_start = t, t_connected = t + 42, t_entry = t + 43, t_uptime = t + 44,
      t_checked = t + 45, t_online = t + 46\<rparr>"

definition T0 :: instant where
  "T0 = 1700000000000"

definition ok_entry :: "instant \<Rightarrow> HealthCheckHistory" where
  "ok_entry t = \<lparr>timestamp = t, entry_status = Success, entry_responseTime = Some 42,
                 entry_error = None\<rparr>"

definition failed_entry :: "instant \<Rightarrow> HealthCheckHistory" where
  "failed_entry t = \<lparr>timestamp = t, entry_status = Failure, entry_responseTime = None,
                     entry_error = Some ''Network request failed''\<rparr>"

definition offline_status :: "string \<Rightarrow> ServerHealthStatus" where
  "offline_status sid =
     \<lparr>serverId = sid, status = Offline, lastChecked = T0 - 900000, lastOnline = None,
      consecutiveFailures = 1, uptimePercentage = 0, responseTime = None,
      errorMessage = Some ''Connection failed''\<rparr>"

definition online_status :: "string \<Rightarrow> ServerHealthStatus" where
  "online_status sid =
     \<lparr>serverId = sid, status = Online, lastChecked = T0 - 900000,
      lastOnline = Some (T0 - 900000), consecutiveFailures = 0, uptimePercentage = 100,
      responseTime = Some 42, errorMessage = None\<rparr>"



text \<open>A history at the retention bound: 1000 entries, the oldest a failure.\<close>

definition full_history :: "HealthCheckHistory list" where
  "full_history = failed_entry (T0 - 120000) # replicate 999 (ok_entry (T0 - 60000))"

definition full_world :: world where
  "full_world = empty_world\<lparr>history_items := (\<lambda>k. NoItem)(''srv1'' := Json full_history)\<rparr>"

text \<open>23 successes and 17 failures in the last minute before \<open>T0\<close>.\<close>

definition mixed_history :: "HealthCheckHistory list" where
  "mixed_history = replicate 23 (ok_entry (T0 - 60000)) @ replicate 17 (failed_entry (T0 - 30000))"

definition mixed_world :: world where
  "mixed_world = empty_world\<lparr>history_items := (\<lambda>k. NoItem)(''srv1'' := Json mixed_history)\<rparr>"

text \<open>The history of \<open>srv1\<close> cannot be read, or is not JSON.\<close>

definition unreadable_world :: world where
  "unreadable_world = mixed_world\<lparr>getItem_rejects := (\<lambda>k. k = history_key ''srv1'')\<rparr>"

definition garbled_world :: world where
  "garbled_world = empty_world\<lparr>history_items := (\<lambda>k. NoItem)(''srv1'' := BadJson)\<rparr>"

text \<open>
  Two servers under monitoring; \<open>srv1\<close> was last seen offline and the notification sink
  rejects every request.
\<close>

definition two_servers_world :: world where
  "two_servers_world =
     empty_world
       \<lparr>healthCheckConfigs := [(''srv1'', cfg1), (''srv2'', cfg2)],
        status_items := (\<lambda>k. NoItem)(''srv1'' := Json (offline_status ''srv1'')),
        schedule_rejects := (\<lambda>n. Some (ErrorObject ''Notifications are not available''))\<rparr>"

section \<open>Properties of the operations\<close>

lemma log_event_fields:
  "trace (log_event e w) = trace w @ [e]"
  "healthCheckConfigs (log_event e w) = healthCheckConfigs w"
  "status_items (log_event e w) = status_items w"
  "history_items (log_event e w) = history_items w"
  "configs_item (log_event e w) = configs_item w"
  "getItem_rejects (log_event e w) = getItem_rejects w"
  "setItem_rejects (log_event e w) = setItem_rejects w"
  "schedule_rejects (log_event e w) = schedule_rejects w"
  by (simp_all add: log_event_def)

lemma load_history_log_event: "load_history (log_event e w) sid = load_history w sid"
  by (simp add: load_history_def log_event_fields)

lemma getServerStatus_eq:
  "getServerStatus w sid =
     (log_event (GetItem (status_key sid)) w,
      if getItem_rejects w (status_key sid) then None
      else case status_items w sid of Json s \<Rightarrow> Some s | _ \<Rightarrow> None)"
  by (simp add: getServerStatus_def Let_def split: item.splits)

lemma getHealthHistory_eq:
  "getHealthHistory w sid limit =
     (log_event (GetItem (history_key sid)) w,
      case load_history w sid of None \<Rightarrow> [] | Some h \<Rightarrow> slice_last limit h)"
  by (simp add: getHealthHistory_def Let_def split: option.splits)

lemma calculateUptime_eq:
  "calculateUptime w sid now =
     (log_event (GetItem (history_key sid)) w,
      uptime_of (case load_history w sid of None \<Rightarrow> [] | Some h \<Rightarrow> slice_last 100 h) now)"
  by (simp add: calculateUptime_def getHealthHistory_eq)

lemma addHistoryEntry_fields:
  "trace (addHistoryEntry w sid entry) =
     trace w @ GetItem (history_key sid) #
       (case load_history w sid of None \<Rightarrow> [] | Some h \<Rightarrow> [SetItem (history_key sid)])"
  "healthCheckConfigs (addHistoryEntry w sid entry) = healthCheckConfigs w"
  "status_items (addHistoryEntry w sid entry) = status_items w"
  "configs_item (addHistoryEntry w sid entry) = configs_item w"
  "getItem_rejects (addHistoryEntry w sid entry) = getItem_rejects w"
  "setItem_rejects (addHistoryEntry w sid entry) = setItem_rejects w"
  "schedule_rejects (addHistoryEntry w sid entry) = schedule_rejects w"
  by (simp_all add: addHistoryEntry_def Let_def log_event_fields split: option.splits)

lemma addHistoryEntry_history:
  "history_items (addHistoryEntry w sid entry) =
     (case load_history w sid of
        None \<Rightarrow> history_items w
      | Some h \<Rightarrow> if setItem_rejects w (history_key sid) then history_items w
                  else (history_items w)(sid := Json (slice_last 1000 (h @ [entry]))))"
  by (simp add: addHistoryEntry_def Let_def log_event_fields split: option.splits)

lemma saveServerStatus_fields:
  "trace (saveServerStatus w sid s) = trace w @ [SetItem (status_key sid)]"
  "healthCheckConfigs (saveServerStatus w sid s) = healthCheckConfigs w"
  "history_items (saveServerStatus w sid s) = history_items w"
  "configs_item (saveServerStatus w sid s) = configs_item w"
  "getItem_rejects (saveServerStatus w sid s) = getItem_rejects w"
  "setItem_rejects (saveServerStatus w sid s) = setItem_rejects w"
  "schedule_rejects (saveServerStatus w sid s) = schedule_rejects w"
  "status_items (saveServerStatus w sid s) =
     (if setItem_rejects w (status_key sid) then status_items w
      else (status_items w)(sid := Json s))"
  by (simp_all add: saveServerStatus_def Let_def log_event_fields)

lemma sendNotification_fields:
  "trace (fst (sendNotification w t b d)) =
     trace w @ [ScheduleNotification \<lparr>title = t, body = b, data = d\<rparr>]"
  "healthCheckConfigs (fst (sendNotification w t b d)) = healthCheckConfigs w"
  "status_items (fst (sendNotification w t b d)) = status_items w"
  "history_items (fst (sendNotification w t b d)) = history_items w"
  "configs_item (fst (sendNotification w t b d)) = configs_item w"
  "getItem_rejects (fst (sendNotification w t b d)) = getItem_rejects w"
  "setItem_rejects (fst (sendNotification w t b d)) = setItem_rejects w"
  "schedule_rejects (fst (sendNotification w t b d)) = schedule_rejects w"
  by (simp_all add: sendNotification_def Let_def log_event_fields split: option.splits)

lemma handleNotifications_fields:
  "healthCheckConfigs (fst (handleNotifications w sv c p cfg)) = healthCheckConfigs w"
  "status_items (fst (handleNotifications w sv c p cfg)) = status_items w"
  "history_items (fst (handleNotifications w sv c p cfg)) = history_items w"
  "configs_item (fst (handleNotifications w sv c p cfg)) = configs_item w"
  "getItem_rejects (fst (handleNotifications w sv c p cfg)) = getItem_rejects w"
  "setItem_rejects (fst (handleNotifications w sv c p cfg)) = setItem_rejects w"
  "schedule_rejects (fst (handleNotifications w sv c p cfg)) = schedule_rejects w"
  by (simp_all add: handleNotifications_def sendNotification_def Let_def log_event_fields
      split: option.splits)

lemma handleNotifications_eq:
  "handleNotifications w sv c p cfg =
     (case decided sv c p cfg of
        [] \<Rightarrow> (w, Inr ())
      | n # ns \<Rightarrow> (log_event (ScheduleNotification n) w,
                   case schedule_rejects w n of Some e \<Rightarrow> Inl e | None \<Rightarrow> Inr ()))"
  by (cases p)
     (simp_all add: handleNotifications_def decided_def sendNotification_def Let_def
        failure_notification_def recovery_notification_def split: option.splits)

lemma handleNotifications_trace:
  "trace (fst (handleNotifications w sv c p cfg)) =
     trace w @ map ScheduleNotification (decided sv c p cfg)"
  by (cases p)
     (simp_all add: handleNotifications_eq decided_def log_event_fields)

lemma length_decided: "length (decided sv c p cfg) \<le> 1"
  by (simp add: decided_def split: option.splits)

lemma decided_transition:
  "decided sv c p cfg \<noteq> [] \<Longrightarrow> \<exists>q. p = Some q \<and> status q \<noteq> status c"
  by (cases p) (simp_all add: decided_def split: if_splits)

lemma getServerStatus_read: "getServerStatus w sid = (log_event (GetItem (status_key sid)) w, read_previous w sid)"
  by (simp add: getServerStatus_eq read_previous_def)

lemma read_previous_log_event: "read_previous (log_event e w) sid = read_previous w sid"
  by (simp add: read_previous_def log_event_fields)

lemma load_history_cong:
  "getItem_rejects w' = getItem_rejects w \<Longrightarrow> history_items w' = history_items w \<Longrightarrow>
   load_history w' sid = load_history w sid"
  by (simp add: load_history_def)

lemma addHistoryEntry_log_event_history:
  "history_items (addHistoryEntry (log_event e w) sid entry) = history_items (addHistoryEntry w sid entry)"
  by (simp add: addHistoryEntry_history load_history_log_event log_event_fields
      split: option.splits)

lemma load_history_after_append:
  "load_history (addHistoryEntry (log_event e (log_event e' w)) sid entry) sid =
   load_history (addHistoryEntry w sid entry) sid"
  by (rule load_history_cong)
     (simp_all add: addHistoryEntry_fields log_event_fields addHistoryEntry_log_event_history)

lemma case_result:
  "(case x of (w5, Inl e) \<Rightarrow> (w5, Inl e) | (w5, Inr u) \<Rightarrow> (w5, Inr hs)) =
   (fst x, case snd x of Inl e \<Rightarrow> Inl e | Inr u \<Rightarrow> Inr hs)"
  by (cases x; cases "snd x") simp_all

lemma saved_world_configs:
  "healthCheckConfigs (saved_world w env sid server) = healthCheckConfigs w"
  by (simp add: saved_world_def saveServerStatus_fields log_event_fields addHistoryEntry_fields)

lemma checkServerHealth_eq:
  "checkServerHealth w env sid server =
     (case map_of (healthCheckConfigs w) sid of
        None \<Rightarrow> (saved_world w env sid server, Inr (new_status w env sid))
      | Some config \<Rightarrow>
          (fst (handleNotifications (saved_world w env sid server) server (new_status w env sid)
                  (read_previous w sid) config),
           case snd (handleNotifications (saved_world w env sid server) server
                       (new_status w env sid) (read_previous w sid) config) of
             Inl e \<Rightarrow> Inl e
           | Inr u \<Rightarrow> Inr (new_status w env sid)))"
proof -
  obtain st rt msg where c: "classify env = (st, rt, msg)"
    by (cases "classify env") auto
  have step: "checkServerHealth w env sid server =
     (case map_of (healthCheckConfigs (saved_world w env sid server)) sid of
        None \<Rightarrow> (saved_world w env sid server, Inr (new_status w env sid))
      | Some config \<Rightarrow>
          (case handleNotifications (saved_world w env sid server) server (new_status w env sid)
                  (read_previous w sid) config of
             (w5, Inl e) \<Rightarrow> (w5, Inl e)
           | (w5, Inr u) \<Rightarrow> (w5, Inr (new_status w env sid))))"
    unfolding checkServerHealth_def saved_world_def new_status_def new_entry_def c
    by (simp only: prod.case getServerStatus_read calculateUptime_eq Let_def fst_conv snd_conv
        read_previous_log_event load_history_after_append)
  show ?thesis
    unfolding step saved_world_configs case_result ..
qed

subsection \<open>Evaluating the double-precision operations\<close>

lemma binary_exponent_eq:
  assumes "0 < p" and "2 ^ 52 * q \<le> p * 2 ^ k" and "p * 2 ^ k < 2 ^ 53 * q" and "k0 \<le> k"
  shows "binary_exponent p q k0 = k"
  using assms(4)
proof (induction "k - k0" arbitrary: k0)
  case 0
  then have "k0 = k" by simp
  with assms(2) show ?case
    by (subst binary_exponent.simps) simp
next
  case (Suc d)
  then have lt: "k0 < k" and d: "d = k - Suc k0" by simp_all
  from lt obtain j where k: "k = Suc (k0 + j)"
    using less_iff_Suc_add by auto
  define a where "a = p * 2 ^ k0 * 2"
  have "p * 2 ^ k = a * 2 ^ j"
    by (simp add: a_def k power_add)
  moreover have "a * 1 \<le> a * 2 ^ j"
    by (rule mult_le_mono2) simp
  ultimately have "a \<le> p * 2 ^ k"
    by simp
  then have "p * 2 ^ k0 * 2 \<le> p * 2 ^ k"
    unfolding a_def .
  from this assms(3) have "p * 2 ^ k0 * 2 < 2 ^ 53 * q"
    by (rule le_less_trans)
  moreover have "(2::nat) ^ 53 * q = 2 ^ 52 * q * 2"
    by simp
  ultimately have small: "\<not> 2 ^ 52 * q \<le> p * 2 ^ k0"
    by linarith
  have "binary_exponent p q (Suc k0) = k"
    using Suc.hyps(1)[OF d] lt by simp
  with small assms(1) show ?case
    by (subst binary_exponent.simps) simp
qed

lemma to_double_eval:
  assumes "0 < p" and "2 ^ 52 * q \<le> p * 2 ^ k" and "p * 2 ^ k < 2 ^ 53 * q"
  shows "to_double p q = (round_half_even (p * 2 ^ k) q, k)"
  using assms binary_exponent_eq[OF assms, of 0]
  by (simp add: to_double_def Let_def)

lemma js_div_23_40: "js_div 23 40 = (5179139571476070, 53)"
  unfolding js_div_def
  by (subst to_double_eval[where k = 53]) (simp_all add: round_half_even_def Let_def)

lemma js_mul_23_40: "js_mul (5179139571476070, 53) 100 = (8092405580431359, 47)"
  unfolding js_mul_def
  by (simp, subst to_double_eval[where k = 47]) (simp_all add: round_half_even_def Let_def)

lemma round_23_40: "Math_round (js_mul (js_div 23 40) 100) = 57"
  by (simp add: js_div_23_40 js_mul_23_40 Math_round_def)



subsection \<open>Slices and concrete histories\<close>

lemma length_slice_last: "0 < n \<Longrightarrow> length (slice_last n xs) \<le> n"
  by (simp add: slice_last_def)

lemma slice_last_suffix: "\<exists>ys. ys @ slice_last n xs = xs"
proof (cases "n = 0")
  case True
  then show ?thesis by (simp add: slice_last_def)
next
  case False
  then have "take (length xs - n) xs @ slice_last n xs = xs"
    by (simp add: slice_last_def)
  then show ?thesis by blast
qed

lemma slice_last_full: "length xs = n \<Longrightarrow> 0 < n \<Longrightarrow> slice_last n (xs @ [x]) = tl xs @ [x]"
  by (cases xs) (simp_all add: slice_last_def)

lemma slice_last_short: "length xs \<le> n \<Longrightarrow> slice_last n xs = xs"
  by (simp add: slice_last_def)

lemma filter_replicate_if: "filter P (replicate n x) = (if P x then replicate n x else [])"
  by (induction n) simp_all

lemma addHistoryEntry_stored:
  assumes "load_history w sid = Some h" and "\<not> setItem_rejects w (history_key sid)"
  shows "history_items (addHistoryEntry w sid entry) sid = Json (slice_last 1000 (h @ [entry]))"
  using assms by (simp add: addHistoryEntry_history)

lemma load_history_addHistoryEntry:
  assumes "load_history w sid = Some h" and "\<not> setItem_rejects w (history_key sid)"
  shows "load_history (addHistoryEntry w sid entry) sid = Some (slice_last 1000 (h @ [entry]))"
proof -
  from assms(1) have "\<not> getItem_rejects w (history_key sid)"
    by (auto simp add: load_history_def split: if_splits)
  then show ?thesis
    using addHistoryEntry_stored[OF assms, of entry]
    by (simp add: load_history_def addHistoryEntry_fields)
qed

subsection \<open>The state after a check\<close>

lemma saved_world_fields:
  "healthCheckConfigs (saved_world w env sid server) = healthCheckConfigs w"
  "configs_item (saved_world w env sid server) = configs_item w"
  "getItem_rejects (saved_world w env sid server) = getItem_rejects w"
  "setItem_rejects (saved_world w env sid server) = setItem_rejects w"
  "schedule_rejects (saved_world w env sid server) = schedule_rejects w"
  "history_items (saved_world w env sid server) =
     history_items (addHistoryEntry w sid (new_entry env))"
  "status_items (saved_world w env sid server) =
     (if setItem_rejects w (status_key sid) then status_items w
      else (status_items w)(sid := Json (new_status w env sid)))"
  by (simp_all add: saved_world_def saveServerStatus_fields log_event_fields
      addHistoryEntry_fields addHistoryEntry_log_event_history)

lemma saved_world_trace:
  "trace (saved_world w env sid server) =
     trace w @
     [ProbeAttempt (server_id server), GetItem (status_key sid), GetItem (history_key sid)] @
     (case load_history w sid of None \<Rightarrow> [] | Some h \<Rightarrow> [SetItem (history_key sid)]) @
     [GetItem (history_key sid), SetItem (status_key sid)]"
  by (simp add: saved_world_def saveServerStatus_fields log_event_fields
      addHistoryEntry_fields load_history_log_event)

lemma fst_checkServerHealth:
  "fst (checkServerHealth w env sid server) =
     (case map_of (healthCheckConfigs w) sid of
        None \<Rightarrow> saved_world w env sid server
      | Some config \<Rightarrow>
          fst (handleNotifications (saved_world w env sid server) server (new_status w env sid)
                 (read_previous w sid) config))"
  by (simp add: checkServerHealth_eq split: option.splits)

lemma checkServerHealth_fields:
  "healthCheckConfigs (fst (checkServerHealth w env sid server)) = healthCheckConfigs w"
  "configs_item (fst (checkServerHealth w env sid server)) = configs_item w"
  "getItem_rejects (fst (checkServerHealth w env sid server)) = getItem_rejects w"
  "setItem_rejects (fst (checkServerHealth w env sid server)) = setItem_rejects w"
  "schedule_rejects (fst (checkServerHealth w env sid server)) = schedule_rejects w"
  "history_items (fst (checkServerHealth w env sid server)) =
     history_items (addHistoryEntry w sid (new_entry env))"
  "status_items (fst (checkServerHealth w env sid server)) =
     (if setItem_rejects w (status_key sid) then status_items w
      else (status_items w)(sid := Json (new_status w env sid)))"
  by (simp_all add: fst_checkServerHealth handleNotifications_fields saved_world_fields
      split: option.splits)

lemma checkServerHealth_trace:
  "\<exists>ns. trace (fst (checkServerHealth w env sid server)) =
     trace (saved_world w env sid server) @ map ScheduleNotification ns"
proof (cases "map_of (healthCheckConfigs w) sid")
  case None
  then have "trace (fst (checkServerHealth w env sid server)) =
     trace (saved_world w env sid server) @ map ScheduleNotification []"
    by (simp add: fst_checkServerHealth)
  then show ?thesis by blast
next
  case (Some config)
  then have "trace (fst (checkServerHealth w env sid server)) =
     trace (saved_world w env sid server) @
     map ScheduleNotification
       (decided server (new_status w env sid) (read_previous w sid) config)"
    by (simp add: fst_checkServerHealth handleNotifications_trace)
  then show ?thesis by blast
qed

lemma checkServerHealth_stored:
  "\<not> setItem_rejects w (status_key sid) \<Longrightarrow>
   status_items (fst (checkServerHealth w env sid server)) sid = Json (new_status w env sid)"
  by (simp add: checkServerHealth_fields)

lemma previous_failures_read:
  "previous_failures w sid =
     (case read_previous w sid of None \<Rightarrow> 0 | Some p \<Rightarrow> consecutiveFailures p)"
  by (simp add: previous_failures_def getServerStatus_read)

lemma previous_failures_step:
  assumes "\<not> setItem_rejects w (status_key sid)" and "\<not> getItem_rejects w (status_key sid)"
  shows "previous_failures (fst (checkServerHealth w env sid server)) sid =
           (if fst (classify env) = Online then 0 else previous_failures w sid + 1)"
  using assms
  by (simp add: previous_failures_read read_previous_def checkServerHealth_fields
      new_status_def)

lemma previous_failures_repeat:
  assumes "\<not> setItem_rejects w (status_key sid)" and "\<not> getItem_rejects w (status_key sid)"
    and "list_all (\<lambda>env. fst (classify env) \<noteq> Online) envs"
  shows "previous_failures (repeat_checks w envs sid server) sid =
           previous_failures w sid + length envs"
  using assms
proof (induction envs arbitrary: w)
  case Nil
  then show ?case by simp
next
  case (Cons env envs)
  let ?w = "fst (checkServerHealth w env sid server)"
  have "previous_failures (repeat_checks ?w envs sid server) sid =
          previous_failures ?w sid + length envs"
    using Cons.prems by (intro Cons.IH) (simp_all add: checkServerHealth_fields)
  moreover have "previous_failures ?w sid = previous_failures w sid + 1"
    using Cons.prems by (simp add: previous_failures_step)
  ultimately show ?case by simp
qed

lemma repeat_checks_rejects:
  "setItem_rejects (repeat_checks w envs sid server) = setItem_rejects w"
  "getItem_rejects (repeat_checks w envs sid server) = getItem_rejects w"
  by (induction envs arbitrary: w) (simp_all add: checkServerHealth_fields)

subsection \<open>Values at the concrete inputs\<close>




lemma uptime_of_empty: "uptime_of [] now = 100"
  by (simp add: uptime_of_def)


lemma load_history_failed_append:
  assumes "load_history w sid = None"
  shows "load_history (addHistoryEntry w sid entry) sid = None"
proof -
  have "load_history (addHistoryEntry w sid entry) sid = load_history w sid"
    by (rule load_history_cong) (simp_all add: addHistoryEntry_fields addHistoryEntry_history assms)
  with assms show ?thesis by simp
qed

subsection \<open>Calls made by a check and by a pass\<close>

lemma checkServerHealth_calls:
  "\<exists>ns. trace (fst (checkServerHealth w env sid server)) =
     trace w @
     [ProbeAttempt (server_id server), GetItem (status_key sid), GetItem (history_key sid)] @
     (case load_history w sid of None \<Rightarrow> [] | Some h \<Rightarrow> [SetItem (history_key sid)]) @
     [GetItem (history_key sid), SetItem (status_key sid)] @
     map ScheduleNotification ns"
proof -
  obtain ns where "trace (fst (checkServerHealth w env sid server)) =
     trace (saved_world w env sid server) @ map ScheduleNotification ns"
    using checkServerHealth_trace by blast
  then have "trace (fst (checkServerHealth w env sid server)) =
     trace w @
     [ProbeAttempt (server_id server), GetItem (status_key sid), GetItem (history_key sid)] @
     (case load_history w sid of None \<Rightarrow> [] | Some h \<Rightarrow> [SetItem (history_key sid)]) @
     [GetItem (history_key sid), SetItem (status_key sid)] @
     map ScheduleNotification ns"
    by (simp add: saved_world_trace)
  then show ?thesis by blast
qed

lemma checkServerHealth_probes:
  assumes "ProbeAttempt x \<in> set (trace (fst (checkServerHealth w env sid server)))"
  shows "ProbeAttempt x \<in> set (trace w) \<or> x = server_id server"
proof -
  obtain ns where "trace (fst (checkServerHealth w env sid server)) =
     trace w @
     [ProbeAttempt (server_id server), GetItem (status_key sid), GetItem (history_key sid)] @
     (case load_history w sid of None \<Rightarrow> [] | Some h \<Rightarrow> [SetItem (history_key sid)]) @
     [GetItem (history_key sid), SetItem (status_key sid)] @
     map ScheduleNotification ns"
    using checkServerHealth_calls by blast
  with assms show ?thesis
    by (auto split: option.splits)
qed

lemma find_holds: "find P xs = Some x \<Longrightarrow> P x"
  by (induction xs) (auto split: if_splits)

lemma check_configs_probes:
  assumes "ProbeAttempt x \<in> set (trace (fst (check_configs w env servers configs)))"
  shows "ProbeAttempt x \<in> set (trace w) \<or> x \<in> cfg_serverId ` set configs"
  using assms
proof (induction configs arbitrary: w)
  case Nil
  then show ?case by simp
next
  case (Cons config rest)
  show ?case
  proof (cases "enabled config")
    case False
    with Cons.prems have "ProbeAttempt x \<in> set (trace (fst (check_configs w env servers rest)))"
      by simp
    from Cons.IH[OF this] show ?thesis by auto
  next
    case True
    show ?thesis
    proof (cases "find (\<lambda>s. server_id s = cfg_serverId config) servers")
      case None
      with True Cons.prems
      have "ProbeAttempt x \<in> set (trace (fst (check_configs w env servers rest)))"
        by simp
      from Cons.IH[OF this] show ?thesis by auto
    next
      case (Some server)
      then have sv: "server_id server = cfg_serverId config"
        by (rule find_holds)
      obtain w' res where
        r: "checkServerHealth w (env (cfg_serverId config)) (cfg_serverId config) server =
              (w', res)"
        by (cases "checkServerHealth w (env (cfg_serverId config)) (cfg_serverId config) server")
      have one: "ProbeAttempt x \<in> set (trace w') \<Longrightarrow>
                   ProbeAttempt x \<in> set (trace w) \<or> x = cfg_serverId config"
        using checkServerHealth_probes[of x w "env (cfg_serverId config)" "cfg_serverId config" server]
        by (simp add: sv r)
      show ?thesis
      proof (cases res)
        case (Inl e)
        with True Some Cons.prems r have "ProbeAttempt x \<in> set (trace w')"
          by simp
        with one show ?thesis by auto
      next
        case (Inr s)
        with True Some Cons.prems r
        have "ProbeAttempt x \<in> set (trace (fst (check_configs w' env servers rest)))"
          by simp
        from Cons.IH[OF this] one show ?thesis by auto
      qed
    qed
  qed
qed

lemma registry_keys:
  assumes "registry_ok m" and "map_of m sid = None"
  shows "sid \<notin> cfg_serverId ` set (map snd m)"
proof
  assume "sid \<in> cfg_serverId ` set (map snd m)"
  then obtain k c where kc: "(k, c) \<in> set m" and c: "cfg_serverId c = sid"
    by auto
  from assms(1) kc have "cfg_serverId c = k"
    by (auto simp add: registry_ok_def list_all_iff)
  with c kc have "sid \<in> fst ` set m"
    by force
  with assms(2) show False
    by (simp add: map_of_eq_None_iff)
qed

subsection \<open>The registry invariant\<close>

lemma Map_set_keys: "fst ` set (Map_set k v m) = insert k (fst ` set m)"
proof (induction m)
  case Nil
  then show ?case by simp
next
  case (Cons kv m)
  obtain k' v' where kv: "kv = (k', v')" by (cases kv)
  show ?case
    by (cases "k' = k") (simp_all add: kv Cons.IH insert_commute)
qed

lemma registry_ok_Map_set:
  assumes "registry_ok m" and "cfg_serverId c = k"
  shows "registry_ok (Map_set k c m)"
  using assms(1)
proof (induction m)
  case Nil
  then show ?case by (simp add: registry_ok_def assms(2))
next
  case (Cons kv m)
  obtain k' v' where kv: "kv = (k', v')" by (cases kv)
  from Cons.prems have tail: "registry_ok m"
    by (simp add: registry_ok_def)
  show ?case
  proof (cases "k' = k")
    case True
    with Cons.prems show ?thesis
      by (simp add: kv registry_ok_def assms(2))
  next
    case False
    have "k' \<notin> fst ` set (Map_set k c m)"
      using Cons.prems False by (simp add: Map_set_keys kv registry_ok_def)
    with Cons.IH[OF tail] Cons.prems False show ?thesis
      by (simp add: kv registry_ok_def)
  qed
qed

lemma registry_ok_filter: "registry_ok m \<Longrightarrow> registry_ok (filter P m)"
  by (induction m) (auto simp add: registry_ok_def)

lemma registry_ok_value:
  assumes "registry_ok m" and "map_of m k = Some c"
  shows "cfg_serverId c = k"
proof -
  from assms(2) have "(k, c) \<in> set m"
    by (rule map_of_SomeD)
  with assms(1) show ?thesis
    by (auto simp add: registry_ok_def list_all_iff)
qed

lemma saveConfigs_registry: "healthCheckConfigs (saveConfigs w) = healthCheckConfigs w"
  by (simp add: saveConfigs_def Let_def log_event_fields)

lemma registry_ok_scheduleHealthCheck:
  "registry_ok (healthCheckConfigs w) \<Longrightarrow>
   registry_ok (healthCheckConfigs (scheduleHealthCheck w config))"
  by (simp add: scheduleHealthCheck_def saveConfigs_registry registry_ok_Map_set)

lemma registry_ok_unscheduleHealthCheck:
  "registry_ok (healthCheckConfigs w) \<Longrightarrow>
   registry_ok (healthCheckConfigs (unscheduleHealthCheck w sid))"
  by (simp add: unscheduleHealthCheck_def saveConfigs_registry registry_ok_filter)

lemma registry_ok_toggleMonitoring:
  assumes "registry_ok (healthCheckConfigs w)"
  shows "registry_ok (healthCheckConfigs (toggleMonitoring w sid en))"
proof (cases "map_of (healthCheckConfigs w) sid")
  case None
  with assms show ?thesis by (simp add: toggleMonitoring_def)
next
  case (Some config)
  with assms have "cfg_serverId (config\<lparr>enabled := en\<rparr>) = sid"
    by (simp add: registry_ok_value)
  with assms have "registry_ok (Map_set sid (config\<lparr>enabled := en\<rparr>) (healthCheckConfigs w))"
    by (rule registry_ok_Map_set)
  with Some show ?thesis
    by (simp add: toggleMonitoring_def saveConfigs_registry)
qed

lemma registry_ok_foldl:
  "registry_ok m \<Longrightarrow>
   registry_ok (foldl (\<lambda>m config. Map_set (cfg_serverId config) config m) m configs)"
  by (induction configs arbitrary: m) (simp_all add: registry_ok_Map_set)

lemma registry_ok_loadConfigs:
  "registry_ok (healthCheckConfigs w) \<Longrightarrow> registry_ok (healthCheckConfigs (loadConfigs w))"
  by (simp add: loadConfigs_def Let_def log_event_fields registry_ok_foldl split: item.splits)

lemma registry_ok_checkServerHealth:
  "registry_ok (healthCheckConfigs w) \<Longrightarrow>
   registry_ok (healthCheckConfigs (fst (checkServerHealth w env sid server)))"
  by (simp add: checkServerHealth_fields)

subsection \<open>Keys\<close>


lemma keys_differ:
  "status_key a \<noteq> history_key b"
  "status_key a \<noteq> configs_key"
  "history_key a \<noteq> configs_key"
  "(status_key a = status_key b) = (a = b)"
  "(history_key a = history_key b) = (a = b)"
  by (simp_all add: status_key_def history_key_def configs_key_def STORAGE_KEY_PREFIX_def)

section \<open>Properties of the specification\<close>

text \<open>
  C5. \<^verbatim>\<open>handleNotifications\<close> asks the sink for at most one notification, and only
  when a previous status exists whose \<^verbatim>\<open>status\<close> differs from the new one. With no
  previous status (a server's first recorded status), and with a previous status equal in
  \<^verbatim>\<open>status\<close> to the new one, it does nothing at all.
\<close>

theorem handleNotifications_transition_only:
  "(\<exists>ns. trace (fst (handleNotifications w server cur prev config)) =
           trace w @ map ScheduleNotification ns \<and> length ns \<le> 1 \<and>
           (ns \<noteq> [] \<longrightarrow> (\<exists>p. prev = Some p \<and> status p \<noteq> status cur))) \<and>
   handleNotifications w server cur None config = (w, Inr ()) \<and>
   (status p = status cur \<longrightarrow> handleNotifications w server cur (Some p) config = (w, Inr ()))"
proof (intro conjI impI)
  let ?ns = "decided server cur prev config"
  have "trace (fst (handleNotifications w server cur prev config)) =
          trace w @ map ScheduleNotification ?ns"
    by (rule handleNotifications_trace)
  moreover have "length ?ns \<le> 1"
    by (rule length_decided)
  moreover have "?ns \<noteq> [] \<longrightarrow> (\<exists>p. prev = Some p \<and> status p \<noteq> status cur)"
    using decided_transition by blast
  ultimately show "\<exists>ns. trace (fst (handleNotifications w server cur prev config)) =
           trace w @ map ScheduleNotification ns \<and> length ns \<le> 1 \<and>
           (ns \<noteq> [] \<longrightarrow> (\<exists>p. prev = Some p \<and> status p \<noteq> status cur))"
    by blast
next
  show "handleNotifications w server cur None config = (w, Inr ())"
    by (simp add: handleNotifications_def)
next
  assume "status p = status cur"
  then show "handleNotifications w server cur (Some p) config = (w, Inr ())"
    by (simp add: handleNotifications_def)
qed

theorem handleNotifications_transition_only_witness:
  "trace (fst (handleNotifications empty_world srv1 (online_status ''srv1'')
                 (Some (offline_status ''srv1'')) cfg1)) =
     [ScheduleNotification
        \<lparr>title = ''Server alpha is back online'', body = ''Response time: 42ms'',
         data = \<lparr>data_serverId = ''srv1'', data_type = ''recovery''\<rparr>\<rparr>] \<and>
   status (offline_status ''srv1'') \<noteq> status (online_status ''srv1'') \<and>
   handleNotifications empty_world srv1 (online_status ''srv1'')
     (Some (online_status ''srv1'')) cfg1 = (empty_world, Inr ())"
  using handleNotifications_transition_only
          [of empty_world srv1 "online_status ''srv1''" "Some (offline_status ''srv1'')" cfg1
              "online_status ''srv1''"]
  by (simp add: handleNotifications_trace decided_def recovery_notification_def
      online_status_def offline_status_def cfg1_def srv1_def empty_world_def number_text_def)

text \<open>
  C8. When the stored history can be read and written, \<^verbatim>\<open>addHistoryEntry\<close> leaves at
  most 1000 entries: the old entries followed by the new one, in arrival order, with
  entries dropped only at the old end. A history below the bound keeps everything; one of
  exactly 1000 entries loses its oldest entry and holds 1000 again.
\<close>

theorem addHistoryEntry_bounded_fifo:
  assumes "load_history w sid = Some h" and "\<not> setItem_rejects w (history_key sid)"
  shows "\<exists>kept. history_items (addHistoryEntry w sid entry) sid = Json kept \<and>
           load_history (addHistoryEntry w sid entry) sid = Some kept \<and>
           length kept \<le> 1000 \<and>
           (\<exists>evicted. evicted @ kept = h @ [entry]) \<and>
           (length h < 1000 \<longrightarrow> kept = h @ [entry]) \<and>
           (length h = 1000 \<longrightarrow> length kept = 1000 \<and> kept = tl h @ [entry])"
proof -
  let ?kept = "slice_last 1000 (h @ [entry])"
  have stored: "history_items (addHistoryEntry w sid entry) sid = Json ?kept"
    using assms by (rule addHistoryEntry_stored)
  have again: "load_history (addHistoryEntry w sid entry) sid = Some ?kept"
    using assms by (rule load_history_addHistoryEntry)
  have len: "length ?kept \<le> 1000"
    by (rule length_slice_last) simp
  have suffix: "\<exists>evicted. evicted @ ?kept = h @ [entry]"
    by (rule slice_last_suffix)
  have short: "length h < 1000 \<longrightarrow> ?kept = h @ [entry]"
    by (simp add: slice_last_short)
  have full: "length h = 1000 \<longrightarrow> length ?kept = 1000 \<and> ?kept = tl h @ [entry]"
  proof
    assume l: "length h = 1000"
    then have eq: "?kept = tl h @ [entry]"
      by (simp add: slice_last_full)
    from l have "length (tl h @ [entry]) = 1000" by simp
    with eq show "length ?kept = 1000 \<and> ?kept = tl h @ [entry]" by simp
  qed
  from stored again len suffix short full show ?thesis by blast
qed

theorem addHistoryEntry_bounded_fifo_witness:
  "load_history full_world ''srv1'' = Some full_history \<and>
   \<not> setItem_rejects full_world (history_key ''srv1'') \<and>
   length full_history = 1000 \<and>
   history_items (addHistoryEntry full_world ''srv1'' (ok_entry T0)) ''srv1'' =
     Json (replicate 999 (ok_entry (T0 - 60000)) @ [ok_entry T0])"
proof -
  have l: "load_history full_world ''srv1'' = Some full_history"
    by (simp add: load_history_def full_world_def empty_world_def)
  have s: "\<not> setItem_rejects full_world (history_key ''srv1'')"
    by (simp add: full_world_def empty_world_def)
  have n: "length full_history = 1000"
    by (simp add: full_history_def)
  have t: "tl full_history = replicate 999 (ok_entry (T0 - 60000))"
    by (simp add: full_history_def)
  from addHistoryEntry_bounded_fifo[OF l s, of "ok_entry T0"] l s n t
  show ?thesis by auto
qed

text \<open>
  C7. A history of 40 entries inside the window, 23 of them successes: the exact
  percentage is 57.5, which rounds half up to 58. The quotient \<^verbatim>\<open>23 / 40\<close> is not a
  double; the nearest double times 100 gives \<^verbatim>\<open>57.49999999999999\<close>, and
  \<^verbatim>\<open>Math.round\<close> returns 57.
\<close>

theorem calculateUptime_23_of_40:
  "snd (calculateUptime mixed_world ''srv1'' T0) = 57 \<and>
   length (filter (\<lambda>e. timestamp e > T0 - DAY_MS) mixed_history) = 40 \<and>
   length (filter (\<lambda>e. entry_status e = Success) mixed_history) = 23 \<and>
   (2 * (100 * 23) + 40) div (2 * 40) = (58::nat)"
proof -
  have u: "uptime_of mixed_history T0 = 57"
    by (simp add: uptime_of_def mixed_history_def ok_entry_def failed_entry_def T0_def
        DAY_MS_def Let_def filter_replicate_if round_23_40)
  have l: "load_history mixed_world ''srv1'' = Some mixed_history"
    by (simp add: load_history_def mixed_world_def empty_world_def)
  have n: "length mixed_history = 40"
    by (simp add: mixed_history_def)
  have c: "snd (calculateUptime mixed_world ''srv1'' T0) = 57"
    by (simp add: calculateUptime_eq l slice_last_short n u)
  have w: "length (filter (\<lambda>e. timestamp e > T0 - DAY_MS) mixed_history) = 40"
    by (simp add: mixed_history_def ok_entry_def failed_entry_def T0_def DAY_MS_def
        filter_replicate_if)
  have k: "length (filter (\<lambda>e. entry_status e = Success) mixed_history) = 23"
    by (simp add: mixed_history_def ok_entry_def failed_entry_def filter_replicate_if)
  from c w k show ?thesis by simp
qed

text \<open>
  C6. With the status item readable and writable, the status stored by a check has
  \<^verbatim>\<open>consecutiveFailures\<close> 0 when the derived status is \<^verbatim>\<open>online\<close>, and otherwise one
  more than the count of the previous status (1 when there is none). So a run of failing
  checks that starts where no count or the count 0 is stored, as it is after any online
  check, ends with the count equal to the length of the run, and one online check after it
  stores 0.
\<close>

theorem consecutiveFailures_counter:
  assumes "\<not> setItem_rejects w (status_key sid)" and "\<not> getItem_rejects w (status_key sid)"
  shows "(\<exists>hs. status_items (fst (checkServerHealth w env sid server)) sid = Json hs \<and>
            status hs = fst (classify env) \<and>
            consecutiveFailures hs =
              (if status hs = Online then 0
               else (case snd (getServerStatus w sid) of
                       None \<Rightarrow> 0
                     | Some p \<Rightarrow> consecutiveFailures p) + 1)) \<and>
         (fst (classify env) = Online \<longrightarrow>
            previous_failures (fst (checkServerHealth w env sid server)) sid = 0) \<and>
         (list_all (\<lambda>e. fst (classify e) \<noteq> Online) envs \<longrightarrow>
          previous_failures w sid = 0 \<longrightarrow>
            previous_failures (repeat_checks w envs sid server) sid = length envs \<and>
            (fst (classify env) = Online \<longrightarrow>
               previous_failures
                 (fst (checkServerHealth (repeat_checks w envs sid server) env sid server)) sid
               = 0))"
proof (intro conjI impI)
  have "status_items (fst (checkServerHealth w env sid server)) sid = Json (new_status w env sid)"
    using assms(1) by (rule checkServerHealth_stored)
  moreover have "status (new_status w env sid) = fst (classify env)"
    by (simp add: new_status_def)
  moreover have "consecutiveFailures (new_status w env sid) =
      (if status (new_status w env sid) = Online then 0
       else (case snd (getServerStatus w sid) of
               None \<Rightarrow> 0
             | Some p \<Rightarrow> consecutiveFailures p) + 1)"
    by (simp add: new_status_def getServerStatus_read)
  ultimately show "\<exists>hs. status_items (fst (checkServerHealth w env sid server)) sid = Json hs \<and>
            status hs = fst (classify env) \<and>
            consecutiveFailures hs =
              (if status hs = Online then 0
               else (case snd (getServerStatus w sid) of
                       None \<Rightarrow> 0
                     | Some p \<Rightarrow> consecutiveFailures p) + 1)"
    by blast
next
  assume "fst (classify env) = Online"
  then show "previous_failures (fst (checkServerHealth w env sid server)) sid = 0"
    using assms by (simp add: previous_failures_step)
next
  assume "list_all (\<lambda>e. fst (classify e) \<noteq> Online) envs" and "previous_failures w sid = 0"
  then show "previous_failures (repeat_checks w envs sid server) sid = length envs"
    using assms by (simp add: previous_failures_repeat)
next
  assume "fst (classify env) = Online"
  then show "previous_failures
                 (fst (checkServerHealth (repeat_checks w envs sid server) env sid server)) sid
               = 0"
    using assms by (simp add: previous_failures_step repeat_checks_rejects)
qed

theorem consecutiveFailures_counter_witness:
  "\<not> setItem_rejects empty_world (status_key ''srv1'') \<and>
   \<not> getItem_rejects empty_world (status_key ''srv1'') \<and>
   list_all (\<lambda>e. fst (classify e) \<noteq> Online)
     [env_at connect_throws T0, env_at connect_throws (T0 + 900000),
      env_at connect_throws (T0 + 1800000)] \<and>
   previous_failures empty_world ''srv1'' = 0 \<and>
   previous_failures
     (repeat_checks empty_world
        [env_at connect_throws T0, env_at connect_throws (T0 + 900000),
         env_at connect_throws (T0 + 1800000)] ''srv1'' srv1) ''srv1'' = 3 \<and>
   fst (classify (env_at connect_ok (T0 + 2700000))) = Online \<and>
   previous_failures
     (fst (checkServerHealth
        (repeat_checks empty_world
           [env_at connect_throws T0, env_at connect_throws (T0 + 900000),
            env_at connect_throws (T0 + 1800000)] ''srv1'' srv1)
        (env_at connect_ok (T0 + 2700000)) ''srv1'' srv1)) ''srv1'' = 0"
proof -
  have s: "\<not> setItem_rejects empty_world (status_key ''srv1'')"
    and g: "\<not> getItem_rejects empty_world (status_key ''srv1'')"
    by (simp_all add: empty_world_def)
  have f: "list_all (\<lambda>e. fst (classify e) \<noteq> Online)
     [env_at connect_throws T0, env_at connect_throws (T0 + 900000),
      env_at connect_throws (T0 + 1800000)]"
    by (simp add: classify_def env_at_def connect_throws_def)
  have z: "previous_failures empty_world ''srv1'' = 0"
    by (simp add: previous_failures_read read_previous_def empty_world_def)
  have o: "fst (classify (env_at connect_ok (T0 + 2700000))) = Online"
    by (simp add: classify_def env_at_def connect_ok_def truthy_def)
  from consecutiveFailures_counter[OF s g, of "env_at connect_ok (T0 + 2700000)" srv1
         "[env_at connect_throws T0, env_at connect_throws (T0 + 900000),
           env_at connect_throws (T0 + 1800000)]"] s g f z o
  show ?thesis by simp
qed

text \<open>
  C10. When the history of a server cannot be read, or its text does not parse,
  \<^verbatim>\<open>getHealthHistory\<close> catches the failure and returns the empty history, so
  \<^verbatim>\<open>calculateUptime\<close> returns the empty-window value 100, and 100 is the uptime of the
  status that the check stores.
\<close>

theorem calculateUptime_unreadable_history:
  assumes "getItem_rejects w (history_key sid) \<or> history_items w sid = BadJson"
  shows "snd (calculateUptime w sid now) = 100 \<and>
         (\<not> setItem_rejects w (status_key sid) \<longrightarrow>
            (\<exists>hs. status_items (fst (checkServerHealth w env sid server)) sid = Json hs \<and>
                  uptimePercentage hs = 100))"
proof -
  from assms have none: "load_history w sid = None"
    by (auto simp add: load_history_def)
  have first: "snd (calculateUptime w sid now) = 100"
    by (simp add: calculateUptime_eq none uptime_of_empty)
  have "load_history (addHistoryEntry w sid (new_entry env)) sid = None"
    using none by (rule load_history_failed_append)
  then have up: "uptimePercentage (new_status w env sid) = 100"
    by (simp add: new_status_def uptime_of_empty)
  have "\<not> setItem_rejects w (status_key sid) \<longrightarrow>
            (\<exists>hs. status_items (fst (checkServerHealth w env sid server)) sid = Json hs \<and>
                  uptimePercentage hs = 100)"
    using up checkServerHealth_stored by blast
  with first show ?thesis by simp
qed

theorem calculateUptime_unreadable_history_witness:
  "getItem_rejects unreadable_world (history_key ''srv1'') \<and>
   \<not> setItem_rejects unreadable_world (status_key ''srv1'') \<and>
   snd (calculateUptime unreadable_world ''srv1'' T0) = 100 \<and>
   (\<exists>hs. status_items
           (fst (checkServerHealth unreadable_world (env_at connect_throws T0) ''srv1'' srv1))
           ''srv1'' = Json hs \<and>
         uptimePercentage hs = 100)"
proof -
  have g: "getItem_rejects unreadable_world (history_key ''srv1'')"
    by (simp add: unreadable_world_def)
  have s: "\<not> setItem_rejects unreadable_world (status_key ''srv1'')"
    by (simp add: unreadable_world_def mixed_world_def empty_world_def)
  from g have "getItem_rejects unreadable_world (history_key ''srv1'') \<or>
               history_items unreadable_world ''srv1'' = BadJson"
    by simp
  from calculateUptime_unreadable_history[OF this, of T0 "env_at connect_throws T0" srv1] g s
  show ?thesis by simp
qed

text \<open>
  C10 as first stated (a failed read gives 0) does not hold: with the history unreadable,
  and with a history that is not JSON, \<^verbatim>\<open>calculateUptime\<close> returns 100.
\<close>

theorem calculateUptime_not_zero_on_read_failure:
  "getItem_rejects unreadable_world (history_key ''srv1'') \<and>
   snd (calculateUptime unreadable_world ''srv1'' T0) = 100 \<and>
   snd (calculateUptime unreadable_world ''srv1'' T0) \<noteq> 0 \<and>
   history_items garbled_world ''srv1'' = BadJson \<and>
   snd (calculateUptime garbled_world ''srv1'' T0) = 100 \<and>
   snd (calculateUptime garbled_world ''srv1'' T0) \<noteq> 0"
proof -
  have g: "getItem_rejects unreadable_world (history_key ''srv1'')"
    by (simp add: unreadable_world_def)
  then have n1: "load_history unreadable_world ''srv1'' = None"
    by (simp add: load_history_def)
  have b: "history_items garbled_world ''srv1'' = BadJson"
    by (simp add: garbled_world_def empty_world_def)
  then have n2: "load_history garbled_world ''srv1'' = None"
    by (simp add: load_history_def)
  from g b n1 n2 show ?thesis
    by (simp add: calculateUptime_eq uptime_of_empty)
qed


text \<open>
  C9. \<^verbatim>\<open>toggleMonitoring\<close> for a server id without configuration returns the state as
  it is: registry, stored snapshot and even the record of storage calls. A pass that
  follows makes no connectivity test for that id (the registry being one the service can
  build, see \<open>registry_ok\<close>).
\<close>

theorem toggleMonitoring_unknown_server:
  assumes "map_of (healthCheckConfigs w) sid = None" and "registry_ok (healthCheckConfigs w)"
  shows "toggleMonitoring w sid en = w \<and>
         (ProbeAttempt sid \<in>
            set (trace (fst (monitoring_task (toggleMonitoring w sid en) env getServers))) \<longrightarrow>
          ProbeAttempt sid \<in> set (trace w))"
proof -
  have same: "toggleMonitoring w sid en = w"
    using assms(1) by (simp add: toggleMonitoring_def)
  have no_key: "sid \<notin> cfg_serverId ` set (getConfigs w)"
    unfolding getConfigs_def using assms(2) assms(1) by (rule registry_keys)
  have "ProbeAttempt sid \<in> set (trace (fst (monitoring_task w env getServers))) \<longrightarrow>
          ProbeAttempt sid \<in> set (trace w)"
  proof (cases getServers)
    case (Inl e)
    then show ?thesis by (simp add: monitoring_task_def)
  next
    case (Inr servers)
    then have "fst (monitoring_task w env getServers) =
                 fst (check_configs w env servers (getConfigs w))"
      by (simp add: monitoring_task_def split: prod.splits sum.splits)
    then show ?thesis
      using check_configs_probes[of sid w env servers "getConfigs w"] no_key by auto
  qed
  with same show ?thesis by simp
qed

theorem toggleMonitoring_unknown_server_witness:
  "map_of (healthCheckConfigs two_servers_world) ''srv9'' = None \<and>
   registry_ok (healthCheckConfigs two_servers_world) \<and>
   toggleMonitoring two_servers_world ''srv9'' False = two_servers_world \<and>
   ProbeAttempt ''srv9'' \<notin>
     set (trace (fst (monitoring_task (toggleMonitoring two_servers_world ''srv9'' False)
                        (\<lambda>sid. env_at connect_ok T0) (Inr [srv1, srv2]))))"
proof -
  have m: "map_of (healthCheckConfigs two_servers_world) ''srv9'' = None"
    by (simp add: two_servers_world_def empty_world_def)
  have r: "registry_ok (healthCheckConfigs two_servers_world)"
    by (simp add: two_servers_world_def empty_world_def registry_ok_def cfg1_def cfg2_def)
  have t: "ProbeAttempt ''srv9'' \<notin> set (trace two_servers_world)"
    by (simp add: two_servers_world_def empty_world_def)
  from toggleMonitoring_unknown_server[OF m r, of False "\<lambda>sid. env_at connect_ok T0"
         "Inr [srv1, srv2]"] m r t
  show ?thesis by auto
qed






end
